theory Spec2Isabelle
  imports Main
begin

section \<open>Runner discovery and readiness polling\<close>

text \<open>
  The routine under study is \<^verbatim>\<open>getRunner\<close>: it reads the environment variable
  \<^verbatim>\<open>IS_RENDER\<close>, asks one of two factories for a runner handle, and polls the
  handle's health query until it answers or a time budget is used up.

  The routine is asynchronous and talks to four collaborators (the environment, the two
  factories, the handle) and to the clock. All of them are made explicit: what the
  collaborators answer is a parameter of the model, the clock and the log of the calls
  made are a state that every operation takes and returns.
\<close>

subsection \<open>Values\<close>

text \<open>
  Anything can be thrown in JavaScript. The routine itself throws \<^verbatim>\<open>new Error(message)\<close>;
  what the collaborators throw is either such an \<^verbatim>\<open>Error\<close> or a value of a type
  \<open>'x\<close> that the model leaves open.
\<close>

datatype 'x thrown = Error string | Foreign 'x

text \<open>
  One call of \<^verbatim>\<open>runner.client.health.query()\<close>: the time in milliseconds the awaited
  promise takes to settle, and how it settles (\<open>None\<close>: it resolves, \<open>Some e\<close>: it
  rejects with \<open>e\<close>, or the call throws \<open>e\<close>).
\<close>

record 'x reply =
  took :: nat
  rejects :: "'x thrown option"

text \<open>
  \<^verbatim>\<open>interface Runner { client: any; stop(): Promise<void> }\<close>. The only use made of
  \<open>client\<close> is the health query, so the client is what that query answers on its
  first, second, ... call. \<^verbatim>\<open>stop\<close> is the operation \<open>stop\<close> below.
\<close>

record 'x Runner =
  client :: "nat \<Rightarrow> 'x reply"

text \<open>
  The surroundings of a call: \<^verbatim>\<open>process.env\<close>, the two factories
  \<^verbatim>\<open>RenderRunner.get\<close> and \<^verbatim>\<open>LocalRunner.get\<close> (each returns a handle or
  throws), and the lateness of the timer: a timer of \<open>ms\<close> milliseconds armed at time
  \<open>t\<close> fires at \<open>t + ms + timer_lag t\<close>, never early.
\<close>

record 'x process =
  env :: "string \<rightharpoonup> string"
  RenderRunner_get :: "string \<Rightarrow> 'x thrown + 'x Runner"
  LocalRunner_get :: "string \<Rightarrow> 'x thrown + 'x Runner"
  timer_lag :: "nat \<Rightarrow> nat"

subsection \<open>State and effects\<close>

text \<open>Every call the routine can make on a collaborator, as an entry of the log.\<close>

datatype 'x event =
    Env_read string
  | Render_get string
  | Local_get string
  | Health_query "'x thrown option"
  | Set_timeout nat
  | Stop

text \<open>
  The state: the clock (\<^verbatim>\<open>Date.now()\<close>, in milliseconds), the number of health
  queries the handle has answered so far, and the log, each entry with the time at which
  the call was made.
\<close>

record 'x world =
  now :: nat
  queries :: nat
  trace :: "(nat \<times> 'x event) list"

definition record_event :: "'x event \<Rightarrow> 'x world \<Rightarrow> 'x world" where
  "record_event e s = s\<lparr>trace := trace s @ [(now s, e)]\<rparr>"

definition getenv :: "'x process \<Rightarrow> string \<Rightarrow> 'x world \<Rightarrow> string option \<times> 'x world" where
  "getenv p name s = (env p name, record_event (Env_read name) s)"

definition render_get ::
  "'x process \<Rightarrow> string \<Rightarrow> 'x world \<Rightarrow> ('x thrown + 'x Runner) \<times> 'x world" where
  "render_get p runnerId s = (RenderRunner_get p runnerId, record_event (Render_get runnerId) s)"

definition local_get ::
  "'x process \<Rightarrow> string \<Rightarrow> 'x world \<Rightarrow> ('x thrown + 'x Runner) \<times> 'x world" where
  "local_get p runnerId s = (LocalRunner_get p runnerId, record_event (Local_get runnerId) s)"

definition Date_now :: "'x world \<Rightarrow> nat" where
  "Date_now s = now s"

definition health_query :: "'x Runner \<Rightarrow> 'x world \<Rightarrow> 'x thrown option \<times> 'x world" where
  "health_query runner s =
     (let a = client runner (queries s);
          s' = record_event (Health_query (rejects a)) s
      in (rejects a, s'\<lparr>now := now s' + took a, queries := Suc (queries s')\<rparr>))"

definition setTimeout :: "'x process \<Rightarrow> nat \<Rightarrow> 'x world \<Rightarrow> 'x world" where
  "setTimeout p ms s =
     (let s' = record_event (Set_timeout ms) s
      in s'\<lparr>now := now s' + ms + timer_lag p (now s')\<rparr>)"

definition stop :: "'x world \<Rightarrow> 'x world" where
  "stop s = record_event Stop s"

subsection \<open>The routine\<close>

text \<open>
  The loop of lines 12 to 19, with the loop variable \<open>healthCheck\<close> as an argument:
  \<^verbatim>\<open>
  while (!healthCheck && Date.now() - startTime < timeoutMs) {
      try { await runner.client.health.query(); healthCheck = true; }
      catch (err) { await new Promise((resolve) => setTimeout(resolve, 1000)); }
  }
  \<close>
\<close>

function poll ::
  "'x process \<Rightarrow> 'x Runner \<Rightarrow> nat \<Rightarrow> nat \<Rightarrow> bool \<Rightarrow> 'x world \<Rightarrow> bool \<times> 'x world" where
  "poll p runner startTime timeoutMs healthCheck s =
     (if \<not> healthCheck \<and> Date_now s - startTime < timeoutMs then
        (case health_query runner s of
           (None, s') \<Rightarrow> poll p runner startTime timeoutMs True s'
         | (Some err, s') \<Rightarrow> poll p runner startTime timeoutMs healthCheck (setTimeout p 1000 s'))
      else (healthCheck, s))"
  by pat_completeness auto
termination
  by (relation "measure (\<lambda>(p, runner, startTime, timeoutMs, healthCheck, s).
        if healthCheck then 0 else Suc (startTime + timeoutMs - now s))")
     (auto simp: Date_now_def health_query_def setTimeout_def record_event_def Let_def)

declare poll.simps [simp del]

text \<open>The decimal numeral a template literal prints for a non-negative integer.\<close>

definition digit :: "nat \<Rightarrow> char" where
  "digit d =
     (if d = 0 then CHR ''0'' else if d = 1 then CHR ''1'' else if d = 2 then CHR ''2''
      else if d = 3 then CHR ''3'' else if d = 4 then CHR ''4'' else if d = 5 then CHR ''5''
      else if d = 6 then CHR ''6'' else if d = 7 then CHR ''7'' else if d = 8 then CHR ''8''
      else CHR ''9'')"

fun string_of_nat :: "nat \<Rightarrow> string" where
  "string_of_nat n =
     (if n < 10 then [digit n] else string_of_nat (n div 10) @ [digit (n mod 10)])"

declare string_of_nat.simps [simp del]

text \<open>
  \<^verbatim>\<open>`Runner '${runnerId}' hasn't started after ${timeoutMs}ms,`\<close>
\<close>

definition not_started_message :: "string \<Rightarrow> nat \<Rightarrow> string" where
  "not_started_message runnerId timeoutMs =
     ''Runner '' @ [CHR 0x27] @ runnerId @ [CHR 0x27] @ '' hasn'' @ [CHR 0x27] @ ''t started after ''
       @ string_of_nat timeoutMs @ ''ms,''"

definition getRunner ::
  "'x process \<Rightarrow> string \<Rightarrow> 'x world \<Rightarrow> ('x thrown + 'x Runner) \<times> 'x world" where
  "getRunner p runnerId s0 =
     (let (v, s1) = getenv p ''IS_RENDER'' s0;
          isRender = (v = Some ''true'');
          (got, s2) = (if isRender then render_get p runnerId s1 else local_get p runnerId s1)
      in case got of
           Inl err \<Rightarrow> (Inl err, s2)
         | Inr runner \<Rightarrow>
             (let timeoutMs = (if isRender then 90000 else 10000);
                  healthCheck = False;
                  startTime = Date_now s2;
                  (healthCheck, s3) = poll p runner startTime timeoutMs healthCheck s2
              in if \<not> healthCheck
                 then (Inl (Error (not_started_message runnerId timeoutMs)), s3)
                 else (Inr runner, s3)))"

subsection \<open>Observing a call\<close>

text \<open>
  A call starts at clock \<open>t0\<close> with an empty log, on a handle that has not been
  queried in this call yet.
\<close>

definition start :: "nat \<Rightarrow> 'x world" where
  "start t0 = \<lparr>now = t0, queries = 0, trace = []\<rparr>"

text \<open>The calls of a log, without their times.\<close>

abbreviation calls :: "'x world \<Rightarrow> 'x event list" where
  "calls s \<equiv> map snd (trace s)"

text \<open>
  The local constants of lines 5, 6 and 9, as functions of the surroundings. They are
  shorthands of the statements below; \<open>getRunner\<close> above does not use them.
\<close>

abbreviation isRender :: "'x process \<Rightarrow> bool" where
  "isRender p \<equiv> env p ''IS_RENDER'' = Some ''true''"

abbreviation factory :: "'x process \<Rightarrow> string \<Rightarrow> 'x thrown + 'x Runner" where
  "factory p \<equiv> (if isRender p then RenderRunner_get p else LocalRunner_get p)"

abbreviation timeoutMs :: "'x process \<Rightarrow> nat" where
  "timeoutMs p \<equiv> (if isRender p then 90000 else 10000)"

fun is_env_read :: "'x event \<Rightarrow> bool" where
  "is_env_read (Env_read name) = True"
| "is_env_read _ = False"

fun is_get :: "'x event \<Rightarrow> bool" where
  "is_get (Render_get runnerId) = True"
| "is_get (Local_get runnerId) = True"
| "is_get _ = False"

fun is_health_query :: "'x event \<Rightarrow> bool" where
  "is_health_query (Health_query x) = True"
| "is_health_query _ = False"

fun is_timeout :: "'x event \<Rightarrow> bool" where
  "is_timeout (Set_timeout ms) = True"
| "is_timeout _ = False"

text \<open>
  The calls of a polling phase: rejected queries, each followed by a timer of exactly
  1000 ms, and at the end at most one query that resolved.
\<close>

fun polling_shape :: "'x event list \<Rightarrow> bool" where
  "polling_shape [] = True"
| "polling_shape [Health_query None] = True"
| "polling_shape (Health_query (Some e) # Set_timeout ms # evs) = (ms = 1000 \<and> polling_shape evs)"
| "polling_shape _ = False"

text \<open>
  The state after \<open>n\<close> rounds of the loop in which the query was rejected, and the
  clock at which the query number \<open>k\<close> (counted from 0) of a call that started polling
  at \<open>t0\<close> is made when all queries before it are rejected: each of them takes its
  time, and the timer after it takes 1000 ms and its lag.
\<close>

fun retried :: "'x process \<Rightarrow> 'x Runner \<Rightarrow> 'x world \<Rightarrow> nat \<Rightarrow> 'x world" where
  "retried p r s 0 = s"
| "retried p r s (Suc n) = setTimeout p 1000 (snd (health_query r (retried p r s n)))"

fun arrival :: "'x process \<Rightarrow> 'x Runner \<Rightarrow> nat \<Rightarrow> nat \<Rightarrow> nat" where
  "arrival p r t0 0 = t0"
| "arrival p r t0 (Suc k) =
     (let t = arrival p r t0 k + took (client r k) in t + 1000 + timer_lag p t)"

text \<open>The state in which polling starts, or in which a failure of the factory is passed on.\<close>

definition acquired :: "'x process \<Rightarrow> string \<Rightarrow> nat \<Rightarrow> 'x world" where
  "acquired p runnerId t0 =
     \<lparr>now = t0, queries = 0,
      trace = [(t0, Env_read ''IS_RENDER''),
               (t0, if isRender p then Render_get runnerId else Local_get runnerId)]\<rparr>"

subsection \<open>Example surroundings\<close>

text \<open>
  A handle whose first \<open>n\<close> health queries are refused at once and whose later ones
  resolve at once; a handle whose every query times out after \<open>d\<close> ms.
\<close>

definition flaky :: "nat \<Rightarrow> string Runner" where
  "flaky n =
     \<lparr>client = (\<lambda>k. \<lparr>took = 0, rejects = (if k < n then Some (Foreign ''ECONNREFUSED'') else None)\<rparr>)\<rparr>"

definition unreachable :: "nat \<Rightarrow> string Runner" where
  "unreachable d = \<lparr>client = (\<lambda>k. \<lparr>took = d, rejects = Some (Error ''ETIMEDOUT'')\<rparr>)\<rparr>"

text \<open>
  A handle whose every query resolves, after \<open>d\<close> ms; a handle whose first \<open>n\<close>
  queries time out after \<open>d\<close> ms each and whose later ones resolve at once.
\<close>

definition slow :: "nat \<Rightarrow> string Runner" where
  "slow d = \<lparr>client = (\<lambda>k. \<lparr>took = d, rejects = None\<rparr>)\<rparr>"

definition stalling :: "nat \<Rightarrow> nat \<Rightarrow> string Runner" where
  "stalling d n =
     \<lparr>client = (\<lambda>k. if k < n then \<lparr>took = d, rejects = Some (Error ''ETIMEDOUT'')\<rparr>
                     else \<lparr>took = 0, rejects = None\<rparr>)\<rparr>"

text \<open>
  A process with the given value of \<^verbatim>\<open>IS_RENDER\<close>, whose local factory returns
  \<open>l\<close> and whose remote factory returns \<open>r\<close>, with punctual timers.
\<close>

definition process_with ::
  "string option \<Rightarrow> string thrown + string Runner \<Rightarrow> string thrown + string Runner \<Rightarrow> string process" where
  "process_with flag l r =
     \<lparr>env = (\<lambda>name. if name = ''IS_RENDER'' then flag else None),
      RenderRunner_get = (\<lambda>runnerId. r),
      LocalRunner_get = (\<lambda>runnerId. l),
      timer_lag = (\<lambda>t. 0)\<rparr>"

section \<open>Properties\<close>

subsection \<open>The steps of the loop\<close>

lemma health_query_fields:
  "fst (health_query r s) = rejects (client r (queries s))"
  "now (snd (health_query r s)) = now s + took (client r (queries s))"
  "queries (snd (health_query r s)) = Suc (queries s)"
  "trace (snd (health_query r s)) = trace s @ [(now s, Health_query (rejects (client r (queries s))))]"
  by (simp_all add: health_query_def record_event_def Let_def)

lemma setTimeout_fields:
  "now (setTimeout p ms s) = now s + ms + timer_lag p (now s)"
  "queries (setTimeout p ms s) = queries s"
  "trace (setTimeout p ms s) = trace s @ [(now s, Set_timeout ms)]"
  by (simp_all add: setTimeout_def record_event_def Let_def)

lemma poll_done: "poll p r st B True s = (True, s)"
  by (simp add: poll.simps)

lemma poll_exhausted: "\<not> now s - st < B \<Longrightarrow> poll p r st B hc s = (hc, s)"
  by (simp add: poll.simps Date_now_def)

lemma poll_healthy:
  "now s - st < B \<Longrightarrow> rejects (client r (queries s)) = None \<Longrightarrow>
   poll p r st B False s = (True, snd (health_query r s))"
  by (subst poll.simps) (simp add: Date_now_def health_query_def Let_def poll_done)

lemma poll_retry:
  "now s - st < B \<Longrightarrow> rejects (client r (queries s)) = Some e \<Longrightarrow>
   poll p r st B False s = poll p r st B False (setTimeout p 1000 (snd (health_query r s)))"
  by (subst poll.simps) (simp add: Date_now_def health_query_def Let_def)

text \<open>
  Induction over the rounds of a run of the loop: the budget is used up, or the query
  resolves, or it is rejected and the loop goes round again after the timer.
\<close>

lemma poll_rounds [consumes 1, case_names exhausted healthy retry]:
  assumes run: "poll p r st B False s = (ok, s')"
    and exhausted: "\<And>s. \<not> now s - st < B \<Longrightarrow> P s False s"
    and healthy: "\<And>s. now s - st < B \<Longrightarrow> rejects (client r (queries s)) = None \<Longrightarrow>
                   P s True (snd (health_query r s))"
    and retry: "\<And>s e ok s'. now s - st < B \<Longrightarrow> rejects (client r (queries s)) = Some e \<Longrightarrow>
                   poll p r st B False (setTimeout p 1000 (snd (health_query r s))) = (ok, s') \<Longrightarrow>
                   P (setTimeout p 1000 (snd (health_query r s))) ok s' \<Longrightarrow> P s ok s'"
  shows "P s ok s'"
  using run
proof (induction "st + B - now s" arbitrary: s rule: less_induct)
  case less
  show ?case
  proof (cases "now s - st < B")
    case False
    with less.prems exhausted show ?thesis
      by (simp add: poll_exhausted)
  next
    case inside: True
    show ?thesis
    proof (cases "rejects (client r (queries s))")
      case None
      with inside less.prems healthy show ?thesis
        by (auto simp add: poll_healthy)
    next
      case (Some e)
      let ?s1 = "setTimeout p 1000 (snd (health_query r s))"
      have closer: "st + B - now ?s1 < st + B - now s"
        using inside by (simp add: setTimeout_fields health_query_fields)
      have again: "poll p r st B False ?s1 = (ok, s')"
        using poll_retry [OF inside Some] less.prems by simp
      from retry [OF inside Some again less.hyps [OF closer again]] show ?thesis .
    qed
  qed
qed

text \<open>What a run of the loop adds to the log.\<close>

lemma poll_trace:
  assumes "poll p r st B False s = (ok, s')"
  shows "\<exists>evs. trace s' = trace s @ evs \<and> polling_shape (map snd evs)
           \<and> (ok \<longleftrightarrow> evs \<noteq> [] \<and> snd (last evs) = Health_query None)
           \<and> (\<forall>t x. (t, Health_query x) \<in> set evs \<longrightarrow> t - st < B)"
  using assms
proof (induction rule: poll_rounds)
  case (exhausted s)
  then show ?case by simp
next
  case (healthy s)
  then show ?case by (simp add: health_query_fields)
next
  case (retry s e ok s')
  then obtain evs where evs: "trace s' = trace (setTimeout p 1000 (snd (health_query r s))) @ evs"
     "polling_shape (map snd evs)" "ok \<longleftrightarrow> evs \<noteq> [] \<and> snd (last evs) = Health_query None"
     "\<forall>t x. (t, Health_query x) \<in> set evs \<longrightarrow> t - st < B"
    by blast
  let ?evs = "(now s, Health_query (Some e)) # (now s + took (client r (queries s)), Set_timeout 1000) # evs"
  have "trace s' = trace s @ ?evs"
    using evs(1) retry(2) by (simp add: setTimeout_fields health_query_fields)
  moreover have "polling_shape (map snd ?evs)" using evs(2) by simp
  moreover have "ok \<longleftrightarrow> ?evs \<noteq> [] \<and> snd (last ?evs) = Health_query None"
    using evs(3) by auto
  moreover have "\<forall>t x. (t, Health_query x) \<in> set ?evs \<longrightarrow> t - st < B"
    using evs(4) retry(1) by auto
  ultimately show ?case by blast
qed

text \<open>
  The clock never goes back; the loop gives up only when the budget is used up; when it
  reports a healthy handle, the last query made was answered by the handle.
\<close>

lemma poll_clock:
  assumes "poll p r st B False s = (ok, s')"
  shows "now s \<le> now s' \<and> (\<not> ok \<longrightarrow> B \<le> now s' - st)"
  using assms
proof (induction rule: poll_rounds)
  case (exhausted s)
  then show ?case by simp
next
  case (healthy s)
  then show ?case by (simp add: health_query_fields)
next
  case (retry s e ok s')
  then show ?case by (simp add: setTimeout_fields health_query_fields)
qed

lemma poll_answered:
  assumes "poll p r st B False s = (ok, s')"
  shows "queries s \<le> queries s' \<and>
         (ok \<longrightarrow> queries s < queries s' \<and> rejects (client r (queries s' - 1)) = None)"
  using assms
proof (induction rule: poll_rounds)
  case (exhausted s)
  then show ?case by simp
next
  case (healthy s)
  then show ?case by (simp add: health_query_fields)
next
  case (retry s e ok s')
  then show ?case by (auto simp add: setTimeout_fields health_query_fields)
qed

text \<open>
  The times of the health queries of a run: any two are at least 1000 ms apart, and the
  one numbered \<open>k\<close> is made at \<open>arrival p r t0 k\<close>; when none of the queries that
  are made inside the budget resolves, the loop reports no healthy handle.
\<close>

lemma poll_spacing:
  assumes "poll p r st B False s = (ok, s')"
  shows "\<exists>evs. trace s' = trace s @ evs \<and> (\<forall>a \<in> set evs. now s \<le> fst a)
           \<and> sorted_wrt (\<lambda>a b. fst a + 1000 \<le> fst b) (filter (\<lambda>a. is_health_query (snd a)) evs)"
  using assms
proof (induction rule: poll_rounds)
  case (exhausted s)
  then show ?case by simp
next
  case (healthy s)
  then show ?case by (simp add: health_query_fields)
next
  case (retry s e ok s')
  let ?s1 = "setTimeout p 1000 (snd (health_query r s))"
  from retry obtain evs where evs: "trace s' = trace ?s1 @ evs"
     "\<forall>a \<in> set evs. now ?s1 \<le> fst a"
     "sorted_wrt (\<lambda>a b. fst a + 1000 \<le> fst b) (filter (\<lambda>a. is_health_query (snd a)) evs)"
    by blast
  let ?evs = "(now s, Health_query (Some e)) # (now s + took (client r (queries s)), Set_timeout 1000) # evs"
  have later: "now s + 1000 \<le> now ?s1"
    by (simp add: setTimeout_fields health_query_fields)
  have "trace s' = trace s @ ?evs"
    using evs(1) retry(2) by (simp add: setTimeout_fields health_query_fields)
  moreover have "\<forall>a \<in> set ?evs. now s \<le> fst a"
    using evs(2) later by auto
  moreover have "sorted_wrt (\<lambda>a b. fst a + 1000 \<le> fst b) (filter (\<lambda>a. is_health_query (snd a)) ?evs)"
    using evs(2,3) later by auto
  ultimately show ?case by blast
qed

lemma poll_arrivals:
  assumes "poll p r st B False s = (ok, s')"
  shows "now s = arrival p r t0 (queries s) \<longrightarrow>
         queries s \<le> queries s' \<and>
         (\<exists>evs. trace s' = trace s @ evs \<and>
            map fst (filter (\<lambda>a. is_health_query (snd a)) evs) =
              map (arrival p r t0) [queries s..<queries s'])"
  using assms
proof (induction rule: poll_rounds)
  case (exhausted s)
  then show ?case by simp
next
  case (healthy s)
  then show ?case by (simp add: health_query_fields)
next
  case (retry s e ok s')
  let ?s1 = "setTimeout p 1000 (snd (health_query r s))"
  show ?case
  proof
    assume at: "now s = arrival p r t0 (queries s)"
    then have "now ?s1 = arrival p r t0 (queries ?s1)"
      by (simp add: setTimeout_fields health_query_fields Let_def)
    with retry(4) obtain evs where evs: "queries ?s1 \<le> queries s'" "trace s' = trace ?s1 @ evs"
      "map fst (filter (\<lambda>a. is_health_query (snd a)) evs) = map (arrival p r t0) [queries ?s1..<queries s']"
      by blast
    let ?evs = "(now s, Health_query (Some e)) # (now s + took (client r (queries s)), Set_timeout 1000) # evs"
    have q: "queries ?s1 = Suc (queries s)"
      by (simp add: setTimeout_fields health_query_fields)
    have "trace s' = trace s @ ?evs"
      using evs(2) retry(2) by (simp add: setTimeout_fields health_query_fields)
    moreover have "map fst (filter (\<lambda>a. is_health_query (snd a)) ?evs) =
        map (arrival p r t0) [queries s..<queries s']"
      using evs(1,3) q at by (simp add: upt_conv_Cons)
    ultimately show "queries s \<le> queries s' \<and>
         (\<exists>evs. trace s' = trace s @ evs \<and>
            map fst (filter (\<lambda>a. is_health_query (snd a)) evs) =
              map (arrival p r t0) [queries s..<queries s'])"
      using evs(1) q by auto
  qed
qed

lemma poll_rejected:
  assumes "poll p r st B False s = (ok, s')"
  shows "now s = arrival p r t0 (queries s) \<longrightarrow>
         (\<forall>k. arrival p r t0 k - st < B \<longrightarrow> rejects (client r k) \<noteq> None) \<longrightarrow> \<not> ok"
  using assms
proof (induction rule: poll_rounds)
  case (exhausted s)
  then show ?case by simp
next
  case (healthy s)
  then show ?case by auto
next
  case (retry s e ok s')
  then show ?case
    by (simp add: setTimeout_fields health_query_fields Let_def)
qed

lemma polling_shape_events:
  "polling_shape evs \<Longrightarrow> e \<in> set evs \<Longrightarrow> (\<exists>x. e = Health_query x) \<or> e = Set_timeout 1000"
  by (induction evs rule: polling_shape.induct) auto

lemma polling_shape_healthy:
  "polling_shape evs \<Longrightarrow> Health_query None \<in> set evs \<Longrightarrow> last evs = Health_query None"
  by (induction evs rule: polling_shape.induct) auto

lemma polling_shape_no_env_read: "polling_shape evs \<Longrightarrow> filter is_env_read evs = []"
  by (induction evs rule: polling_shape.induct) auto

lemma polling_shape_no_get: "polling_shape evs \<Longrightarrow> filter is_get evs = []"
  by (induction evs rule: polling_shape.induct) auto

subsection \<open>Rounds with a rejected query\<close>

lemma retried_queries: "queries (retried p r s n) = queries s + n"
  by (induction n) (simp_all add: setTimeout_fields health_query_fields)

lemma retried_now_mono: "now (retried p r s n) \<le> now (retried p r s (Suc n))"
  by (simp add: setTimeout_fields health_query_fields)

lemma retried_arrival:
  "queries s = 0 \<Longrightarrow> now (retried p r s n) = arrival p r (now s) n"
  by (induction n) (simp_all add: setTimeout_fields health_query_fields retried_queries Let_def)

text \<open>
  When the rejected queries take no time and the timers are punctual, the attempts are
  exactly 1000 ms apart.
\<close>

lemma arrival_punctual:
  "(\<And>k. k < n \<Longrightarrow> took (client r k) = 0) \<Longrightarrow> (\<And>t. timer_lag p t = 0) \<Longrightarrow>
   arrival p r t0 n = t0 + 1000 * n"
  by (induction n) (simp_all add: Let_def)

lemma retried_timeouts:
  "length (filter is_timeout (calls (retried p r s n))) = length (filter is_timeout (calls s)) + n"
  by (induction n) (simp_all add: setTimeout_fields health_query_fields)

lemma retried_health_queries:
  "length (filter is_health_query (calls (retried p r s n))) =
   length (filter is_health_query (calls s)) + n"
  by (induction n) (simp_all add: setTimeout_fields health_query_fields)

lemma poll_retried:
  assumes "\<forall>k<n. rejects (client r (queries s + k)) \<noteq> None"
    and "now (retried p r s n) - st < B"
  shows "poll p r st B False s = poll p r st B False (retried p r s n)"
  using assms
proof (induction n)
  case 0
  show ?case by simp
next
  case (Suc n)
  have inside: "now (retried p r s n) - st < B"
    using Suc.prems(2) retried_now_mono [of p r s n] by linarith
  have before: "poll p r st B False s = poll p r st B False (retried p r s n)"
    using Suc.IH Suc.prems(1) inside by simp
  obtain e where "rejects (client r (queries (retried p r s n))) = Some e"
    using Suc.prems(1) by (auto simp add: retried_queries)
  from poll_retry [OF inside this] before show ?case by simp
qed

subsection \<open>The two ways through the routine\<close>

lemma getRunner_failed:
  assumes "factory p runnerId = Inl err"
  shows "getRunner p runnerId (start t0) = (Inl err, acquired p runnerId t0)"
  using assms
  by (simp add: getRunner_def getenv_def render_get_def local_get_def record_event_def
      start_def acquired_def split: if_splits)

lemma getRunner_polled:
  assumes "factory p runnerId = Inr r"
    and "poll p r t0 (timeoutMs p) False (acquired p runnerId t0) = (ok, s')"
  shows "getRunner p runnerId (start t0) =
           (if ok then Inr r else Inl (Error (not_started_message runnerId (timeoutMs p))), s')"
  using assms
  by (simp add: getRunner_def getenv_def render_get_def local_get_def record_event_def
      start_def acquired_def Date_now_def split: if_splits)

lemma string_of_budget: "string_of_nat 90000 = ''90000''" "string_of_nat 10000 = ''10000''"
  by (simp_all add: string_of_nat.simps digit_def)

subsection \<open>The log of a call\<close>

lemma getRunner_log:
  "\<exists>evs. trace (snd (getRunner p runnerId (start t0))) = trace (acquired p runnerId t0) @ evs
         \<and> polling_shape (map snd evs)
         \<and> (\<forall>t x. (t, Health_query x) \<in> set evs \<longrightarrow> t - t0 < timeoutMs p)"
proof (cases "factory p runnerId")
  case (Inl err)
  then show ?thesis by (simp add: getRunner_failed)
next
  case (Inr r)
  obtain ok s' where run: "poll p r t0 (timeoutMs p) False (acquired p runnerId t0) = (ok, s')"
    by (cases "poll p r t0 (timeoutMs p) False (acquired p runnerId t0)")
  from poll_trace [OF run] getRunner_polled [OF Inr run] show ?thesis
    by auto
qed

lemma acquired_trace:
  "trace (acquired p runnerId t0) =
     [(t0, Env_read ''IS_RENDER''), (t0, if isRender p then Render_get runnerId else Local_get runnerId)]"
  by (simp add: acquired_def)

lemma getRunner_spacing:
  "sorted_wrt (\<lambda>a b. fst a + 1000 \<le> fst b)
     (filter (\<lambda>a. is_health_query (snd a)) (trace (snd (getRunner p runnerId (start t0)))))"
proof (cases "factory p runnerId")
  case (Inl err)
  then show ?thesis by (simp add: getRunner_failed acquired_def)
next
  case (Inr r)
  obtain ok s' where run: "poll p r t0 (timeoutMs p) False (acquired p runnerId t0) = (ok, s')"
    by (cases "poll p r t0 (timeoutMs p) False (acquired p runnerId t0)")
  from poll_spacing [OF run] getRunner_polled [OF Inr run] show ?thesis
    by (auto simp add: acquired_def)
qed

lemma getRunner_arrivals:
  assumes "factory p runnerId = Inr r"
  shows "map fst (filter (\<lambda>a. is_health_query (snd a)) (trace (snd (getRunner p runnerId (start t0)))))
         = map (arrival p r t0) [0..<queries (snd (getRunner p runnerId (start t0)))]"
proof -
  obtain ok s' where run: "poll p r t0 (timeoutMs p) False (acquired p runnerId t0) = (ok, s')"
    by (cases "poll p r t0 (timeoutMs p) False (acquired p runnerId t0)")
  have "now (acquired p runnerId t0) = arrival p r t0 (queries (acquired p runnerId t0))"
    by (simp add: acquired_def)
  with poll_arrivals [OF run, of t0] getRunner_polled [OF assms run] show ?thesis
    by (auto simp add: acquired_def)
qed

text \<open>
  C1. When \<open>getRunner\<close> returns a handle, it is the handle the selected factory
  returned; the last call made before returning is a health query that resolved, and it
  is this handle that answered it.
\<close>

theorem getRunner_returns_healthy_handle:
  assumes "getRunner p runnerId (start t0) = (Inr v, s')"
  shows "factory p runnerId = Inr v
       \<and> (\<exists>t. last (trace s') = (t, Health_query None))
       \<and> 0 < queries s' \<and> rejects (client v (queries s' - 1)) = None"
proof (cases "factory p runnerId")
  case (Inl err)
  with assms show ?thesis by (simp add: getRunner_failed)
next
  case (Inr r)
  obtain ok s'' where run: "poll p r t0 (timeoutMs p) False (acquired p runnerId t0) = (ok, s'')"
    by (cases "poll p r t0 (timeoutMs p) False (acquired p runnerId t0)")
  from getRunner_polled [OF Inr run] assms have ok: "ok" and same: "r = v" "s'' = s'"
    by (auto split: if_splits)
  from poll_trace [OF run] ok same obtain evs where
    evs: "trace s' = trace (acquired p runnerId t0) @ evs" "evs \<noteq> []"
      "snd (last evs) = Health_query None"
    by auto
  have "last (trace s') = (fst (last evs), Health_query None)"
    using evs by (simp add: prod_eq_iff)
  moreover from poll_answered [OF run] ok same
  have "0 < queries s' \<and> rejects (client v (queries s' - 1)) = None"
    by auto
  ultimately show ?thesis using Inr same by blast
qed

text \<open>
  C2. The budget is 90000 ms when \<^verbatim>\<open>IS_RENDER\<close> selects remote mode and 10000 ms
  otherwise: every health query is made while less than the budget has passed since
  polling started, and the routine gives up on a handle only when the budget has passed.
  After the two calls that obtain the handle, the log is a polling phase: a timer of
  exactly 1000 ms stands between any two health queries. In time: any two health queries
  of a call are made at least 1000 ms apart, and the query numbered \<open>k\<close> is made at
  \<open>arrival p r t0 k\<close>, that is 1000 ms, and the lag of the timer, after the query before
  it was rejected.
\<close>

theorem getRunner_budget_and_interval:
  "polling_shape (drop 2 (calls (snd (getRunner p runnerId (start t0)))))
   \<and> sorted_wrt (\<lambda>a b. fst a + 1000 \<le> fst b)
        (filter (\<lambda>a. is_health_query (snd a)) (trace (snd (getRunner p runnerId (start t0)))))
   \<and> (\<forall>r. factory p runnerId = Inr r \<longrightarrow>
         map fst (filter (\<lambda>a. is_health_query (snd a)) (trace (snd (getRunner p runnerId (start t0)))))
           = map (arrival p r t0) [0..<queries (snd (getRunner p runnerId (start t0)))])
   \<and> (\<forall>t x. (t, Health_query x) \<in> set (trace (snd (getRunner p runnerId (start t0))))
         \<longrightarrow> t - t0 < (if env p ''IS_RENDER'' = Some ''true'' then 90000 else 10000))
   \<and> (\<forall>r. factory p runnerId = Inr r \<longrightarrow> fst (getRunner p runnerId (start t0)) \<noteq> Inr r
         \<longrightarrow> (if env p ''IS_RENDER'' = Some ''true'' then 90000 else 10000)
               \<le> now (snd (getRunner p runnerId (start t0))) - t0)"
proof -
  obtain evs where evs:
    "trace (snd (getRunner p runnerId (start t0))) = trace (acquired p runnerId t0) @ evs"
    "polling_shape (map snd evs)"
    "\<forall>t x. (t, Health_query x) \<in> set evs \<longrightarrow> t - t0 < timeoutMs p"
    using getRunner_log [of p runnerId t0] by blast
  have shape: "polling_shape (drop 2 (calls (snd (getRunner p runnerId (start t0)))))"
    using evs(1,2) by (simp add: acquired_trace)
  have inside: "\<forall>t x. (t, Health_query x) \<in> set (trace (snd (getRunner p runnerId (start t0))))
         \<longrightarrow> t - t0 < timeoutMs p"
    using evs(1,3) by (auto simp add: acquired_trace split: if_splits)
  have late: "timeoutMs p \<le> now (snd (getRunner p runnerId (start t0))) - t0"
    if got: "factory p runnerId = Inr r" and not: "fst (getRunner p runnerId (start t0)) \<noteq> Inr r" for r
  proof -
    obtain ok s' where run: "poll p r t0 (timeoutMs p) False (acquired p runnerId t0) = (ok, s')"
      by (cases "poll p r t0 (timeoutMs p) False (acquired p runnerId t0)")
    from getRunner_polled [OF got run] not have "\<not> ok" by auto
    with poll_clock [OF run] getRunner_polled [OF got run] show ?thesis by simp
  qed
  from shape inside late getRunner_spacing [of p runnerId t0] getRunner_arrivals [of p runnerId _ t0]
  show ?thesis by blast
qed

text \<open>
  C3. Exactly one call to a factory is made: to the remote factory when
  \<^verbatim>\<open>IS_RENDER\<close> is \<^verbatim>\<open>'true'\<close>, to the local factory otherwise.
\<close>

theorem getRunner_one_factory:
  "filter is_get (calls (snd (getRunner p runnerId (start t0)))) =
     [if env p ''IS_RENDER'' = Some ''true'' then Render_get runnerId else Local_get runnerId]"
proof -
  obtain evs where evs:
    "trace (snd (getRunner p runnerId (start t0))) = trace (acquired p runnerId t0) @ evs"
    "polling_shape (map snd evs)"
    using getRunner_log [of p runnerId t0] by blast
  from evs(1) polling_shape_no_get [OF evs(2)] show ?thesis
    by (simp add: acquired_trace)
qed

text \<open>
  C9. No call of \<open>getRunner\<close>, whatever its outcome, calls \<^verbatim>\<open>stop\<close> on the handle.
\<close>

theorem getRunner_never_stops:
  "Stop \<notin> set (calls (snd (getRunner p runnerId (start t0))))"
proof -
  obtain evs where evs:
    "trace (snd (getRunner p runnerId (start t0))) = trace (acquired p runnerId t0) @ evs"
    "polling_shape (map snd evs)"
    using getRunner_log [of p runnerId t0] by blast
  have "Stop \<notin> set (map snd evs)"
    using polling_shape_events [OF evs(2), of Stop] by auto
  with evs(1) show ?thesis
    by (simp add: acquired_trace)
qed

text \<open>
  C4 as amended. The window is tested when an attempt starts. When the factory returned a
  handle and none of its health queries that start before the budget has passed resolves
  (each query settles: it resolves or it is rejected), the call fails with the error whose
  message names the runner and the budget in milliseconds, the handle is not returned, and
  the budget has passed.
\<close>

theorem getRunner_not_healthy:
  assumes "factory p runnerId = Inr r"
    and "\<forall>k. arrival p r t0 k - t0 < timeoutMs p \<longrightarrow> rejects (client r k) \<noteq> None"
  shows "fst (getRunner p runnerId (start t0)) =
           Inl (Error (''Runner '' @ [CHR 0x27] @ runnerId @ [CHR 0x27] @ '' hasn'' @ [CHR 0x27]
                  @ ''t started after '' @ (if isRender p then ''90000'' else ''10000'') @ ''ms,''))
       \<and> fst (getRunner p runnerId (start t0)) \<noteq> Inr r
       \<and> timeoutMs p \<le> now (snd (getRunner p runnerId (start t0))) - t0"
proof -
  obtain ok s' where run: "poll p r t0 (timeoutMs p) False (acquired p runnerId t0) = (ok, s')"
    by (cases "poll p r t0 (timeoutMs p) False (acquired p runnerId t0)")
  have "now (acquired p runnerId t0) = arrival p r t0 (queries (acquired p runnerId t0))"
    by (simp add: acquired_def)
  with poll_rejected [OF run, of t0] assms(2) have "\<not> ok" by blast
  with getRunner_polled [OF assms(1) run] poll_clock [OF run] show ?thesis
    by (simp add: not_started_message_def string_of_budget)
qed


text \<open>
  C6. When the first health query resolves, the handle is returned after that one query:
  the log holds the read of the flag, the call to the factory and the query, and no
  timer; the clock has advanced by the time the query took.
\<close>

theorem getRunner_healthy_at_once:
  assumes "factory p runnerId = Inr r"
    and "rejects (client r 0) = None"
  shows "fst (getRunner p runnerId (start t0)) = Inr r
       \<and> calls (snd (getRunner p runnerId (start t0))) =
           [Env_read ''IS_RENDER'',
            if isRender p then Render_get runnerId else Local_get runnerId,
            Health_query None]
       \<and> filter is_timeout (calls (snd (getRunner p runnerId (start t0)))) = []
       \<and> now (snd (getRunner p runnerId (start t0))) = t0 + took (client r 0)"
proof -
  have "poll p r t0 (timeoutMs p) False (acquired p runnerId t0) =
          (True, snd (health_query r (acquired p runnerId t0)))"
    using assms(2) by (intro poll_healthy) (simp_all add: acquired_def)
  from getRunner_polled [OF assms(1) this] assms(2) show ?thesis
    by (simp add: health_query_fields acquired_def)
qed

text \<open>
  C7 as amended. When the health query is rejected \<open>N - 1\<close> times and resolves on the
  \<open>N\<close>-th attempt, and that attempt is made before the budget has passed, the handle
  is returned after \<open>N\<close> queries and \<open>N - 1\<close> timers of 1000 ms, at the time the
  \<open>N\<close>-th query resolves.
\<close>

theorem getRunner_healthy_on_nth_attempt:
  assumes "factory p runnerId = Inr r"
    and "0 < N"
    and "\<forall>k<N - 1. rejects (client r k) \<noteq> None"
    and "rejects (client r (N - 1)) = None"
    and "arrival p r t0 (N - 1) - t0 < timeoutMs p"
  shows "fst (getRunner p runnerId (start t0)) = Inr r
       \<and> length (filter is_timeout (calls (snd (getRunner p runnerId (start t0))))) = N - 1
       \<and> length (filter is_health_query (calls (snd (getRunner p runnerId (start t0))))) = N
       \<and> now (snd (getRunner p runnerId (start t0))) = arrival p r t0 (N - 1) + took (client r (N - 1))"
proof -
  let ?a = "acquired p runnerId t0"
  let ?s = "retried p r ?a (N - 1)"
  have a: "queries ?a = 0" "now ?a = t0" "filter is_timeout (calls ?a) = []"
    "filter is_health_query (calls ?a) = []"
    by (simp_all add: acquired_def)
  have at: "now ?s = arrival p r t0 (N - 1)"
    using retried_arrival [of ?a p r "N - 1"] a by simp
  have inside: "now ?s - t0 < timeoutMs p"
    using assms(5) at by simp
  have "poll p r t0 (timeoutMs p) False ?a = poll p r t0 (timeoutMs p) False ?s"
    using assms(3) a(1) by (intro poll_retried inside) simp
  also have "\<dots> = (True, snd (health_query r ?s))"
    using assms(4) a(1) by (intro poll_healthy inside) (simp add: retried_queries)
  finally have run: "poll p r t0 (timeoutMs p) False ?a = (True, snd (health_query r ?s))" .
  from getRunner_polled [OF assms(1) run]
  have result: "getRunner p runnerId (start t0) = (Inr r, snd (health_query r ?s))"
    by simp
  have "length (filter is_timeout (calls (snd (health_query r ?s)))) = N - 1"
    using retried_timeouts [of p r ?a "N - 1"] a by (simp add: health_query_fields)
  moreover have "length (filter is_health_query (calls (snd (health_query r ?s)))) = N"
    using retried_health_queries [of p r ?a "N - 1"] a assms(2) by (simp add: health_query_fields)
  moreover have "now (snd (health_query r ?s)) = arrival p r t0 (N - 1) + took (client r (N - 1))"
    using at a(1) by (simp add: health_query_fields retried_queries)
  ultimately show ?thesis using result by simp
qed

text \<open>
  C8. When the selected factory throws, the call fails with what the factory threw; the
  log holds the read of the flag and the call to the factory only: no health query, no
  timer, and the clock has not moved.
\<close>

theorem getRunner_factory_failure:
  assumes "factory p runnerId = Inl err"
  shows "fst (getRunner p runnerId (start t0)) = Inl err
       \<and> calls (snd (getRunner p runnerId (start t0))) =
           [Env_read ''IS_RENDER'', if isRender p then Render_get runnerId else Local_get runnerId]
       \<and> filter is_health_query (calls (snd (getRunner p runnerId (start t0)))) = []
       \<and> filter is_timeout (calls (snd (getRunner p runnerId (start t0)))) = []
       \<and> now (snd (getRunner p runnerId (start t0))) = t0"
  using getRunner_failed [OF assms, of t0] by (simp add: acquired_def)

text \<open>
  C10. The remote factory is called exactly when \<^verbatim>\<open>IS_RENDER\<close> is the string
  \<^verbatim>\<open>'true'\<close>, the local factory exactly when it is anything else or unset. The
  variable is read once. The budget goes with the factory that was called: after a call
  to the remote factory, queries are made while less than 90000 ms have passed and the
  failure comes no sooner and names 90000; after a call to the local factory the same
  holds with 10000.
\<close>

theorem getRunner_flag_consistent:
  "(Render_get runnerId \<in> set (calls (snd (getRunner p runnerId (start t0))))
      \<longleftrightarrow> env p ''IS_RENDER'' = Some ''true'')
   \<and> (Local_get runnerId \<in> set (calls (snd (getRunner p runnerId (start t0))))
      \<longleftrightarrow> env p ''IS_RENDER'' \<noteq> Some ''true'')
   \<and> filter is_env_read (calls (snd (getRunner p runnerId (start t0)))) = [Env_read ''IS_RENDER'']
   \<and> (\<forall>t x. (t, Health_query x) \<in> set (trace (snd (getRunner p runnerId (start t0)))) \<longrightarrow>
         t - t0 < (if Render_get runnerId \<in> set (calls (snd (getRunner p runnerId (start t0))))
                   then 90000 else 10000))
   \<and> (\<forall>r. factory p runnerId = Inr r \<longrightarrow> fst (getRunner p runnerId (start t0)) \<noteq> Inr r \<longrightarrow>
         fst (getRunner p runnerId (start t0)) =
           Inl (Error (not_started_message runnerId
             (if Render_get runnerId \<in> set (calls (snd (getRunner p runnerId (start t0))))
              then 90000 else 10000)))
         \<and> (if Render_get runnerId \<in> set (calls (snd (getRunner p runnerId (start t0))))
              then 90000 else 10000) \<le> now (snd (getRunner p runnerId (start t0))) - t0)"
proof -
  let ?s = "snd (getRunner p runnerId (start t0))"
  obtain evs where evs:
    "trace ?s = trace (acquired p runnerId t0) @ evs"
    "polling_shape (map snd evs)"
    "\<forall>t x. (t, Health_query x) \<in> set evs \<longrightarrow> t - t0 < timeoutMs p"
    using getRunner_log [of p runnerId t0] by blast
  have no_get: "Render_get runnerId \<notin> set (map snd evs)" "Local_get runnerId \<notin> set (map snd evs)"
    using polling_shape_events [OF evs(2), of "Render_get runnerId"]
      polling_shape_events [OF evs(2), of "Local_get runnerId"] by auto
  have remote: "Render_get runnerId \<in> set (calls ?s) \<longleftrightarrow> isRender p"
    using evs(1) no_get by (simp add: acquired_trace)
  have local: "Local_get runnerId \<in> set (calls ?s) \<longleftrightarrow> \<not> isRender p"
    using evs(1) no_get by (simp add: acquired_trace)
  have once: "filter is_env_read (calls ?s) = [Env_read ''IS_RENDER'']"
    using evs(1) polling_shape_no_env_read [OF evs(2)] by (simp add: acquired_trace)
  have inside: "\<forall>t x. (t, Health_query x) \<in> set (trace ?s) \<longrightarrow> t - t0 < timeoutMs p"
    using evs(1,3) by (auto simp add: acquired_trace split: if_splits)
  have late: "fst (getRunner p runnerId (start t0)) =
                Inl (Error (not_started_message runnerId (timeoutMs p)))
              \<and> timeoutMs p \<le> now ?s - t0"
    if got: "factory p runnerId = Inr r" and not: "fst (getRunner p runnerId (start t0)) \<noteq> Inr r" for r
  proof -
    obtain ok s' where run: "poll p r t0 (timeoutMs p) False (acquired p runnerId t0) = (ok, s')"
      by (cases "poll p r t0 (timeoutMs p) False (acquired p runnerId t0)")
    from getRunner_polled [OF got run] not have "\<not> ok" by auto
    with poll_clock [OF run] getRunner_polled [OF got run] show ?thesis by simp
  qed
  show ?thesis
    unfolding remote local using once inside late by simp
qed

subsection \<open>Runs on the example surroundings\<close>

lemmas run_defs =
  getRunner_def getenv_def render_get_def local_get_def record_event_def start_def Date_now_def
  poll.simps health_query_def setTimeout_def Let_def process_with_def flaky_def unreachable_def
  slow_def stalling_def
  not_started_message_def string_of_budget

theorem getRunner_returns_healthy_handle_witness:
  "getRunner (process_with None (Inr (flaky 2)) (Inl (Foreign ''down''))) ''r1'' (start 0) =
     (Inr (flaky 2),
      snd (getRunner (process_with None (Inr (flaky 2)) (Inl (Foreign ''down''))) ''r1'' (start 0)))
   \<and> LocalRunner_get (process_with None (Inr (flaky 2)) (Inl (Foreign ''down''))) ''r1'' = Inr (flaky 2)
   \<and> last (trace (snd (getRunner (process_with None (Inr (flaky 2)) (Inl (Foreign ''down''))) ''r1'' (start 0))))
       = (2000, Health_query None)
   \<and> rejects (client (flaky 2) 2) = None"
  using getRunner_returns_healthy_handle
    [of "process_with None (Inr (flaky 2)) (Inl (Foreign ''down''))" "''r1''" 0 "flaky 2"
        "snd (getRunner (process_with None (Inr (flaky 2)) (Inl (Foreign ''down''))) ''r1'' (start 0))"]
  by (simp add: run_defs)

theorem getRunner_budget_and_interval_witness:
  "polling_shape (drop 2 (calls (snd (getRunner
       (process_with (Some ''true'') (Inl (Foreign ''down'')) (Inr (unreachable 30000))) ''r1'' (start 0)))))
   \<and> (62000, Health_query (Some (Error ''ETIMEDOUT''))) \<in> set (trace (snd (getRunner
       (process_with (Some ''true'') (Inl (Foreign ''down'')) (Inr (unreachable 30000))) ''r1'' (start 0))))
   \<and> (62000::nat) - 0 < 90000
   \<and> map fst (filter (\<lambda>a. is_health_query (snd a)) (trace (snd (getRunner
       (process_with (Some ''true'') (Inl (Foreign ''down'')) (Inr (unreachable 30000))) ''r1'' (start 0)))))
       = [0, 31000, 62000]
   \<and> RenderRunner_get (process_with (Some ''true'') (Inl (Foreign ''down'')) (Inr (unreachable 30000))) ''r1''
       = Inr (unreachable 30000)
   \<and> fst (getRunner (process_with (Some ''true'') (Inl (Foreign ''down'')) (Inr (unreachable 30000)))
        ''r1'' (start 0)) \<noteq> Inr (unreachable 30000)
   \<and> now (snd (getRunner (process_with (Some ''true'') (Inl (Foreign ''down'')) (Inr (unreachable 30000)))
        ''r1'' (start 0))) = 93000"
  using getRunner_budget_and_interval
    [of "process_with (Some ''true'') (Inl (Foreign ''down'')) (Inr (unreachable 30000))" "''r1''" 0]
  by (simp add: run_defs)

theorem getRunner_one_factory_witness:
  "filter is_get (calls (snd (getRunner
       (process_with (Some ''true'') (Inr (flaky 0)) (Inr (flaky 1))) ''r1'' (start 0)))) =
     [Render_get ''r1'']
   \<and> filter is_get (calls (snd (getRunner
       (process_with None (Inr (flaky 0)) (Inr (flaky 1))) ''r1'' (start 0)))) =
     [Local_get ''r1'']"
  using getRunner_one_factory [of "process_with (Some ''true'') (Inr (flaky 0)) (Inr (flaky 1))" "''r1''" 0]
    getRunner_one_factory [of "process_with None (Inr (flaky 0)) (Inr (flaky 1))" "''r1''" 0]
  by (simp add: process_with_def)

theorem getRunner_not_healthy_witness:
  "LocalRunner_get (process_with None (Inr (flaky 20)) (Inl (Foreign ''down''))) ''r1'' = Inr (flaky 20)
   \<and> rejects (client (flaky 20) 20) = None
   \<and> arrival (process_with None (Inr (flaky 20)) (Inl (Foreign ''down''))) (flaky 20) 0 20 = 20000
   \<and> fst (getRunner (process_with None (Inr (flaky 20)) (Inl (Foreign ''down''))) ''r1'' (start 0))
       = Inl (Error (''Runner '' @ [CHR 0x27] @ ''r1'' @ [CHR 0x27] @ '' hasn'' @ [CHR 0x27]
                @ ''t started after 10000ms,''))
   \<and> now (snd (getRunner (process_with None (Inr (flaky 20)) (Inl (Foreign ''down'')))
        ''r1'' (start 0))) = 10000"
proof -
  let ?p = "process_with None (Inr (flaky 20)) (Inl (Foreign ''down''))"
  have at: "arrival ?p (flaky 20) 0 k = 0 + 1000 * k" for k
    by (rule arrival_punctual) (simp_all add: flaky_def process_with_def)
  have got: "factory ?p ''r1'' = Inr (flaky 20)"
    by (simp add: process_with_def)
  have budget: "timeoutMs ?p = 10000"
    by (simp add: process_with_def)
  have unanswered: "\<forall>k. arrival ?p (flaky 20) 0 k - 0 < timeoutMs ?p
                      \<longrightarrow> rejects (client (flaky 20) k) \<noteq> None"
    unfolding budget at by (auto simp add: flaky_def)
  have "now (snd (getRunner ?p ''r1'' (start 0))) = 10000"
    by (simp add: run_defs)
  with getRunner_not_healthy [OF got unanswered] at [of 20] show ?thesis
    by (simp add: process_with_def flaky_def)
qed

text \<open>
  The claim C4 as it is written counts a query as inside the window by the time at which
  it succeeds. A handle whose first query resolves after 20000 ms, in local mode, has no
  query that succeeds within the 10000 ms of the window; it is returned, at 20000 ms, and
  no error is raised.
\<close>

theorem getRunner_late_answer_counterexample:
  "LocalRunner_get (process_with None (Inr (slow 20000)) (Inl (Foreign ''down''))) ''r1''
     = Inr (slow 20000)
   \<and> client (slow 20000) 0 = \<lparr>took = 20000, rejects = None\<rparr>
   \<and> \<not> (20000::nat) < 10000
   \<and> trace (snd (getRunner (process_with None (Inr (slow 20000)) (Inl (Foreign ''down'')))
        ''r1'' (start 0))) =
       [(0, Env_read ''IS_RENDER''), (0, Local_get ''r1''), (0, Health_query None)]
   \<and> now (snd (getRunner (process_with None (Inr (slow 20000)) (Inl (Foreign ''down'')))
        ''r1'' (start 0))) = 20000
   \<and> fst (getRunner (process_with None (Inr (slow 20000)) (Inl (Foreign ''down''))) ''r1'' (start 0))
       = Inr (slow 20000)
   \<and> fst (getRunner (process_with None (Inr (slow 20000)) (Inl (Foreign ''down''))) ''r1'' (start 0))
       \<noteq> Inl (Error (not_started_message ''r1'' 10000))"
  by (simp add: run_defs)


theorem getRunner_healthy_at_once_witness:
  "RenderRunner_get (process_with (Some ''true'') (Inl (Foreign ''down'')) (Inr (flaky 0))) ''r1''
     = Inr (flaky 0)
   \<and> rejects (client (flaky 0) 0) = None
   \<and> fst (getRunner (process_with (Some ''true'') (Inl (Foreign ''down'')) (Inr (flaky 0))) ''r1'' (start 7))
       = Inr (flaky 0)
   \<and> calls (snd (getRunner (process_with (Some ''true'') (Inl (Foreign ''down'')) (Inr (flaky 0)))
        ''r1'' (start 7))) = [Env_read ''IS_RENDER'', Render_get ''r1'', Health_query None]
   \<and> now (snd (getRunner (process_with (Some ''true'') (Inl (Foreign ''down'')) (Inr (flaky 0)))
        ''r1'' (start 7))) = 7"
  using getRunner_healthy_at_once
    [of "process_with (Some ''true'') (Inl (Foreign ''down'')) (Inr (flaky 0))" "''r1''" "flaky 0" 7]
  by (simp add: process_with_def flaky_def)

text \<open>
  The claim C7 as it is written counts \<open>N\<close> timers for a handle that answers on the
  \<open>N\<close>-th attempt, and takes \<open>N\<close> seconds below the budget to be enough for that
  attempt to be made. In local mode and with punctual timers: a handle that is refused at
  once twice and answers on the third attempt is returned after two timers, at 2000 ms;
  a handle whose first query times out after 9999 ms and whose second would answer
  (\<open>N = 2\<close>, and 2000 ms are below 10000 ms) is given up at 10999 ms, before a second
  attempt is made.
\<close>

theorem getRunner_delays_counterexample:
  "rejects (client (flaky 2) 0) \<noteq> None \<and> rejects (client (flaky 2) 1) \<noteq> None
   \<and> rejects (client (flaky 2) 2) = None
   \<and> (3::nat) * 1000 < 10000
   \<and> fst (getRunner (process_with None (Inr (flaky 2)) (Inl (Foreign ''down''))) ''r1'' (start 0))
       = Inr (flaky 2)
   \<and> length (filter is_timeout (calls (snd (getRunner
        (process_with None (Inr (flaky 2)) (Inl (Foreign ''down''))) ''r1'' (start 0))))) \<noteq> 3
   \<and> now (snd (getRunner (process_with None (Inr (flaky 2)) (Inl (Foreign ''down''))) ''r1'' (start 0)))
       = 2000
   \<and> rejects (client (stalling 9999 1) 0) \<noteq> None
   \<and> rejects (client (stalling 9999 1) 1) = None
   \<and> (2::nat) * 1000 < 10000
   \<and> fst (getRunner (process_with None (Inr (stalling 9999 1)) (Inl (Foreign ''down''))) ''r1'' (start 0))
       = Inl (Error (not_started_message ''r1'' 10000))
   \<and> calls (snd (getRunner (process_with None (Inr (stalling 9999 1)) (Inl (Foreign ''down'')))
        ''r1'' (start 0))) =
       [Env_read ''IS_RENDER'', Local_get ''r1'', Health_query (Some (Error ''ETIMEDOUT'')),
        Set_timeout 1000]
   \<and> now (snd (getRunner (process_with None (Inr (stalling 9999 1)) (Inl (Foreign ''down'')))
        ''r1'' (start 0))) = 10999"
proof -
  have "calls (snd (getRunner
        (process_with None (Inr (flaky 2)) (Inl (Foreign ''down''))) ''r1'' (start 0))) =
        [Env_read ''IS_RENDER'', Local_get ''r1'',
         Health_query (Some (Foreign ''ECONNREFUSED'')), Set_timeout 1000,
         Health_query (Some (Foreign ''ECONNREFUSED'')), Set_timeout 1000, Health_query None]"
    by (simp add: run_defs)
  moreover have "fst (getRunner (process_with None (Inr (flaky 2)) (Inl (Foreign ''down''))) ''r1'' (start 0))
       = Inr (flaky 2)"
    by (simp add: run_defs)
  moreover have "now (snd (getRunner (process_with None (Inr (flaky 2)) (Inl (Foreign ''down''))) ''r1'' (start 0)))
       = 2000"
    by (simp add: run_defs)
  moreover have "fst (getRunner (process_with None (Inr (stalling 9999 1)) (Inl (Foreign ''down''))) ''r1'' (start 0))
       = Inl (Error (not_started_message ''r1'' 10000))"
    by (simp add: run_defs)
  moreover have "calls (snd (getRunner (process_with None (Inr (stalling 9999 1)) (Inl (Foreign ''down'')))
        ''r1'' (start 0))) =
       [Env_read ''IS_RENDER'', Local_get ''r1'', Health_query (Some (Error ''ETIMEDOUT'')),
        Set_timeout 1000]"
    by (simp add: run_defs)
  moreover have "now (snd (getRunner (process_with None (Inr (stalling 9999 1)) (Inl (Foreign ''down'')))
        ''r1'' (start 0))) = 10999"
    by (simp add: run_defs)
  ultimately show ?thesis by (simp add: flaky_def stalling_def)
qed

theorem getRunner_healthy_on_nth_attempt_witness:
  "RenderRunner_get (process_with (Some ''true'') (Inl (Foreign ''down'')) (Inr (flaky 3))) ''r1''
     = Inr (flaky 3)
   \<and> (0::nat) < 4
   \<and> rejects (client (flaky 3) 0) \<noteq> None
   \<and> rejects (client (flaky 3) 1) \<noteq> None
   \<and> rejects (client (flaky 3) 2) \<noteq> None
   \<and> rejects (client (flaky 3) (4 - 1)) = None
   \<and> arrival (process_with (Some ''true'') (Inl (Foreign ''down'')) (Inr (flaky 3))) (flaky 3) 0 (4 - 1)
       - 0 < 90000
   \<and> fst (getRunner (process_with (Some ''true'') (Inl (Foreign ''down'')) (Inr (flaky 3))) ''r1'' (start 0))
       = Inr (flaky 3)
   \<and> length (filter is_timeout (calls (snd (getRunner
        (process_with (Some ''true'') (Inl (Foreign ''down'')) (Inr (flaky 3))) ''r1'' (start 0))))) = 3
   \<and> now (snd (getRunner (process_with (Some ''true'') (Inl (Foreign ''down'')) (Inr (flaky 3)))
        ''r1'' (start 0))) = 3000"
  using getRunner_healthy_on_nth_attempt
    [of "process_with (Some ''true'') (Inl (Foreign ''down'')) (Inr (flaky 3))" "''r1''" "flaky 3" 4 0]
  by (simp add: process_with_def flaky_def numeral_3_eq_3)

theorem getRunner_factory_failure_witness:
  "RenderRunner_get (process_with (Some ''true'') (Inr (flaky 0)) (Inl (Foreign ''down''))) ''r1''
     = Inl (Foreign ''down'')
   \<and> fst (getRunner (process_with (Some ''true'') (Inr (flaky 0)) (Inl (Foreign ''down''))) ''r1'' (start 7))
       = Inl (Foreign ''down'')
   \<and> calls (snd (getRunner (process_with (Some ''true'') (Inr (flaky 0)) (Inl (Foreign ''down'')))
        ''r1'' (start 7))) = [Env_read ''IS_RENDER'', Render_get ''r1'']
   \<and> now (snd (getRunner (process_with (Some ''true'') (Inr (flaky 0)) (Inl (Foreign ''down'')))
        ''r1'' (start 7))) = 7"
  using getRunner_factory_failure
    [of "process_with (Some ''true'') (Inr (flaky 0)) (Inl (Foreign ''down''))" "''r1''"
        "Foreign ''down''" 7]
  by (simp add: process_with_def)

theorem getRunner_never_stops_witness:
  "Stop \<notin> set (calls (snd (getRunner
      (process_with None (Inr (unreachable 3000)) (Inl (Foreign ''down''))) ''r1'' (start 0))))"
  using getRunner_never_stops
    [of "process_with None (Inr (unreachable 3000)) (Inl (Foreign ''down''))" "''r1''" 0]
  by simp

theorem getRunner_flag_consistent_witness:
  "env (process_with (Some ''TRUE'') (Inr (unreachable 3000)) (Inr (flaky 0))) ''IS_RENDER''
     \<noteq> Some ''true''
   \<and> Local_get ''r1'' \<in> set (calls (snd (getRunner
        (process_with (Some ''TRUE'') (Inr (unreachable 3000)) (Inr (flaky 0))) ''r1'' (start 0))))
   \<and> Render_get ''r1'' \<notin> set (calls (snd (getRunner
        (process_with (Some ''TRUE'') (Inr (unreachable 3000)) (Inr (flaky 0))) ''r1'' (start 0))))
   \<and> (8000, Health_query (Some (Error ''ETIMEDOUT''))) \<in> set (trace (snd (getRunner
        (process_with (Some ''TRUE'') (Inr (unreachable 3000)) (Inr (flaky 0))) ''r1'' (start 0))))
   \<and> (8000::nat) - 0 < 10000
   \<and> LocalRunner_get (process_with (Some ''TRUE'') (Inr (unreachable 3000)) (Inr (flaky 0))) ''r1''
       = Inr (unreachable 3000)
   \<and> fst (getRunner (process_with (Some ''TRUE'') (Inr (unreachable 3000)) (Inr (flaky 0))) ''r1'' (start 0))
       = Inl (Error (not_started_message ''r1'' 10000))
   \<and> now (snd (getRunner (process_with (Some ''TRUE'') (Inr (unreachable 3000)) (Inr (flaky 0)))
        ''r1'' (start 0))) = 12000
   \<and> Local_get ''r1'' \<in> set (calls (snd (getRunner
        (process_with (Some ''1'') (Inr (flaky 0)) (Inr (flaky 1))) ''r1'' (start 0))))
   \<and> Local_get ''r1'' \<in> set (calls (snd (getRunner
        (process_with None (Inr (flaky 0)) (Inr (flaky 1))) ''r1'' (start 0))))
   \<and> Render_get ''r1'' \<in> set (calls (snd (getRunner
        (process_with (Some ''true'') (Inr (flaky 0)) (Inr (flaky 1))) ''r1'' (start 0))))"
  using getRunner_flag_consistent
    [of "''r1''" "process_with (Some ''TRUE'') (Inr (unreachable 3000)) (Inr (flaky 0))" 0]
    getRunner_flag_consistent [of "''r1''" "process_with (Some ''1'') (Inr (flaky 0)) (Inr (flaky 1))" 0]
    getRunner_flag_consistent [of "''r1''" "process_with None (Inr (flaky 0)) (Inr (flaky 1))" 0]
    getRunner_flag_consistent [of "''r1''" "process_with (Some ''true'') (Inr (flaky 0)) (Inr (flaky 1))" 0]
  by (simp add: run_defs)

end
